theory Spec2Isabelle
  imports Main "HOL-Library.Sublist"
begin

section \<open>Events of a run of deploy.py\<close>

text \<open>
  The script acts on the outside world through log lines, banners, blocking sleeps,
  TCP connection attempts, external commands and one inventory file. A run is modelled
  by the list of these events in the order the script performs them. A log message is
  kept as the list of its pieces, so that the variable every interpolated piece comes
  from stays visible: \<open>Txt\<close> is literal text of the script, \<open>Str\<close> and
  \<open>Num\<close> are interpolated non-secret values, \<open>Secret\<close> is the interpolation
  of the variable \<open>password\<close>, \<open>Exn\<close> the text of a caught exception and
  \<open>Glyph\<close> names a non-ASCII symbol of the message.
\<close>

datatype level = INFO | SUCCESS | WARNING | ERROR

datatype frag = Txt string | Str string | Num int | Glyph string | Secret string | Exn string

datatype event =
    Log level "frag list"
  | Banner string
  | Sleep int
  | Connect string int int
  | Get_password string string
  | Read_inventory
  | Write_inventory string
  | Chdir string
  | Run_playbook
  | Check_prerequisites
  | Deploy_infrastructure
  | Destroy_infrastructure

section \<open>Readiness prober: test_winrm_connectivity\<close>

text \<open>
  The outcome of one pass through the body of the \<open>try\<close> block: either
  \<open>connect_ex\<close> returns an error number (0 for an accepted connection), or one of
  the socket calls raises an exception, whose text is kept.
\<close>

datatype conn = Connect_ex int | Raised string

text \<open>\<open>rule60 lv\<close> is \<open>log("=" * 60, lv)\<close>.\<close>

definition rule60 :: "level \<Rightarrow> event" where
  "rule60 lv = Log lv [Txt (replicate 60 (CHR ''=''))]"

definition winrm_header :: "string \<Rightarrow> int \<Rightarrow> event list" where
  "winrm_header ip port =
     [rule60 INFO,
      Log INFO [Txt ''Waiting for Windows Server to boot and WinRM to be ready...''],
      Log INFO [Txt ''Target: '', Str ip, Txt '':'', Num port],
      Log INFO [Txt ''This may take 5-10 minutes...''],
      rule60 INFO]"

definition winrm_ready :: "event list" where
  "winrm_ready =
     [Log SUCCESS [],
      rule60 SUCCESS,
      Log SUCCESS [Glyph ''check mark'', Txt '' WinRM is ready! Instance is accessible!''],
      rule60 SUCCESS]"

definition winrm_gave_up :: "int \<Rightarrow> event list" where
  "winrm_gave_up max_attempts =
     [Log ERROR [],
      Log ERROR [Glyph ''ballot x'', Txt '' Instance not ready after '', Num max_attempts,
                 Txt '' attempts ('', Num (max_attempts * 30), Txt ''s).'']]"

definition winrm_attempt :: "int \<Rightarrow> int \<Rightarrow> event" where
  "winrm_attempt max_attempts attempt =
     (let elapsed_time = (attempt - 1) * 30
      in Log INFO [Txt ''['', Num elapsed_time, Txt ''s] Attempt '', Num attempt,
                   Txt ''/'', Num max_attempts, Txt '' - Testing WinRM connectivity...''])"

definition winrm_not_open :: "int \<Rightarrow> event" where
  "winrm_not_open port =
     Log WARNING [Txt ''  '', Glyph ''arrow'', Txt '' Port '', Num port,
                  Txt '' not open yet, waiting 30 seconds...'']"

definition winrm_test_failed :: "string \<Rightarrow> event" where
  "winrm_test_failed e =
     Log WARNING [Txt ''  '', Glyph ''arrow'', Txt '' Connection test failed: '', Exn e]"

text \<open>
  The \<open>for attempt in range(1, max_attempts + 1)\<close> loop, entered at \<open>attempt\<close>.
  \<open>net k\<close> is what the network does at attempt \<open>k\<close>; the socket is given the
  timeout 5 before it connects, which \<open>Connect ip port 5\<close> records. The result is the
  trace and what the caller receives: \<open>Inr b\<close> for \<open>return b\<close>, \<open>Inl e\<close>
  for an exception that leaves the function. An exception of the \<open>try\<close> block is
  handled by its \<open>except Exception\<close> branch and the loop goes on.
\<close>

function winrm_loop ::
  "(int \<Rightarrow> conn) \<Rightarrow> string \<Rightarrow> int \<Rightarrow> int \<Rightarrow> int \<Rightarrow> event list \<times> (string + bool)" where
  "winrm_loop net ip port max_attempts attempt =
     (if attempt < max_attempts + 1 then
        (case net attempt of
           Connect_ex result \<Rightarrow>
             if result = 0 then
               (winrm_attempt max_attempts attempt # Connect ip port 5 # winrm_ready, Inr True)
             else
               let (tr, r) = winrm_loop net ip port max_attempts (attempt + 1)
               in (winrm_attempt max_attempts attempt # Connect ip port 5
                   # winrm_not_open port
                   # (if attempt < max_attempts then [Sleep 30] else []) @ tr, r)
         | Raised e \<Rightarrow>
             let (tr, r) = winrm_loop net ip port max_attempts (attempt + 1)
             in (winrm_attempt max_attempts attempt # Connect ip port 5
                 # winrm_test_failed e
                 # (if attempt < max_attempts then [Sleep 30] else []) @ tr, r))
      else (winrm_gave_up max_attempts, Inr False))"
  by pat_completeness auto
termination
  by (relation "measure (\<lambda>(net, ip, port, max_attempts, attempt). nat (max_attempts + 1 - attempt))")
     auto

definition test_winrm_connectivity ::
  "(int \<Rightarrow> conn) \<Rightarrow> string \<Rightarrow> int \<Rightarrow> int \<Rightarrow> event list \<times> (string + bool)" where
  "test_winrm_connectivity net ip port max_attempts =
     (let (tr, r) = winrm_loop net ip port max_attempts 1 in (winrm_header ip port @ tr, r))"

subsection \<open>Observations on a trace\<close>

text \<open>
  \<open>io_of\<close> keeps the connection attempts and the sleeps of a trace, in order.
  \<open>alternate n a s\<close> is \<open>n\<close> copies of \<open>a\<close> with one \<open>s\<close> between each
  two neighbours: it neither starts nor ends with \<open>s\<close>.
\<close>

fun is_io :: "event \<Rightarrow> bool" where
  "is_io (Connect _ _ _) = True"
| "is_io (Sleep _) = True"
| "is_io _ = False"

definition io_of :: "event list \<Rightarrow> event list" where
  "io_of tr = filter is_io tr"

fun is_connect :: "event \<Rightarrow> bool" where
  "is_connect (Connect _ _ _) = True"
| "is_connect _ = False"

fun is_sleep :: "event \<Rightarrow> bool" where
  "is_sleep (Sleep _) = True"
| "is_sleep _ = False"

fun alternate :: "nat \<Rightarrow> 'a \<Rightarrow> 'a \<Rightarrow> 'a list" where
  "alternate 0 a s = []"
| "alternate (Suc 0) a s = [a]"
| "alternate (Suc (Suc n)) a s = a # s # alternate (Suc n) a s"

text \<open>The network accepts no connection at the attempts from \<open>a\<close> up to \<open>b\<close>.\<close>

definition never_accepts :: "(int \<Rightarrow> conn) \<Rightarrow> int \<Rightarrow> int \<Rightarrow> bool" where
  "never_accepts net a b = (\<forall>j. a \<le> j \<and> j \<le> b \<longrightarrow> net j \<noteq> Connect_ex 0)"

section \<open>Configuration phase: the playbook retry loop of configure_with_ansible\<close>

definition playbook_retrying :: "int \<Rightarrow> int \<Rightarrow> event list" where
  "playbook_retrying max_retries retry_count =
     [Log WARNING [],
      Log WARNING [Txt ''Retrying playbook (attempt '', Num (retry_count + 1), Txt ''/'',
                   Num (max_retries + 1), Txt '')...''],
      Log INFO [Txt ''Waiting 30 seconds for system to stabilize...''],
      Sleep 30]"

definition playbook_completed :: "event list" where
  "playbook_completed =
     [Log INFO [],
      rule60 SUCCESS,
      Log SUCCESS [Txt ''ANSIBLE PLAYBOOK COMPLETED SUCCESSFULLY!''],
      rule60 SUCCESS]"

definition playbook_will_retry :: "event" where
  "playbook_will_retry = Log WARNING [Txt ''Playbook failed, will retry...'']"

text \<open>
  The loop \<open>while retry_count <= max_retries and not success\<close>. \<open>engine 0\<close> is the
  return code of the next invocation of ansible-playbook, \<open>engine 1\<close> of the one after
  it, and so on; \<open>Run_playbook\<close> records an invocation. The loop returns its trace
  and the final value of \<open>success\<close>.
\<close>

function playbook_loop :: "(nat \<Rightarrow> int) \<Rightarrow> int \<Rightarrow> int \<Rightarrow> bool \<Rightarrow> event list \<times> bool" where
  "playbook_loop engine max_retries retry_count success =
     (if retry_count \<le> max_retries \<and> \<not> success then
        let before = (if retry_count > 0 then playbook_retrying max_retries retry_count else []);
            returncode = engine 0;
            later = (\<lambda>n. engine (Suc n))
        in if returncode = 0 then
             let (tr, s) = playbook_loop later max_retries retry_count True
             in (before @ Run_playbook # playbook_completed @ tr, s)
           else
             let retry_count' = retry_count + 1;
                 (tr, s) = playbook_loop later max_retries retry_count' success
             in (before @ Run_playbook
                 # (if retry_count' \<le> max_retries then [playbook_will_retry] else []) @ tr, s)
      else ([], success))"
  by pat_completeness auto
termination
  by (relation "measure (\<lambda>(engine, max_retries, retry_count, success).
        if success then 0 else nat (max_retries + 2 - retry_count))") auto

text \<open>\<open>runs_of\<close> keeps the engine invocations and the sleeps of a trace, in order.\<close>

fun is_run_or_sleep :: "event \<Rightarrow> bool" where
  "is_run_or_sleep Run_playbook = True"
| "is_run_or_sleep (Sleep _) = True"
| "is_run_or_sleep _ = False"

definition runs_of :: "event list \<Rightarrow> event list" where
  "runs_of tr = filter is_run_or_sleep tr"

fun is_run :: "event \<Rightarrow> bool" where
  "is_run Run_playbook = True"
| "is_run _ = False"

section \<open>Text: character classes, strip, substring test\<close>

text \<open>
  A text is the \<open>str\<close> that \<open>f.read()\<close> returns and \<open>f.write\<close>
  receives; the encoding and newline translation of the file layer are below this model.
  Characters are the code points below 256, which is what the type \<open>char\<close> holds.
  On these, the class \<open>\s\<close> of the \<open>re\<close> module (and the whitespace that
  \<open>str.strip\<close> removes) is the set below, and \<open>\d\<close> is \<open>0\<close> to \<open>9\<close>.
\<close>

definition is_space :: "char \<Rightarrow> bool" where
  "is_space c = (of_char c \<in> {9, 10, 11, 12, 13, 28, 29, 30, 31, 32, 133, 160 :: nat})"

definition is_digit :: "char \<Rightarrow> bool" where
  "is_digit c = (48 \<le> (of_char c :: nat) \<and> (of_char c :: nat) \<le> 57)"

text \<open>The class \<open>[\d\.]\<close> and the class \<open>[^"]\<close>.\<close>

definition digit_or_dot :: "char \<Rightarrow> bool" where
  "digit_or_dot c = (is_digit c \<or> c = CHR ''.'')"

definition not_quote :: "char \<Rightarrow> bool" where
  "not_quote c = (c \<noteq> CHR 0x22)"

definition newline :: char where
  "newline = CHR 0x0A"

definition backslash :: char where
  "backslash = CHR 0x5C"

definition quote :: char where
  "quote = CHR 0x22"

text \<open>\<open>str.strip()\<close>: whitespace removed at both ends.\<close>

definition strip :: "string \<Rightarrow> string" where
  "strip s = rev (dropWhile is_space (rev (dropWhile is_space s)))"

text \<open>\<open>sub in s\<close> on strings.\<close>

fun contains :: "string \<Rightarrow> string \<Rightarrow> bool" where
  "contains sub [] = (sub = [])"
| "contains sub (x # xs) = (prefix sub (x # xs) \<or> contains sub xs)"

section \<open>The regular expressions of the credential bridge\<close>

text \<open>
  The two patterns of \<open>configure_with_ansible\<close> are built from the start-of-line
  anchor (under \<open>re.MULTILINE\<close>), literal characters, greedy repetitions of a character
  class and one capturing group that opens where the pattern starts. \<open>Group_end\<close>
  marks where group 1 closes.
\<close>

datatype atom = Bol | Lit char | Plus "char \<Rightarrow> bool" | Star "char \<Rightarrow> bool" | Group_end

text \<open>
  A greedy repetition tries the longest run first and gives characters back one at a
  time: \<open>tries f lo hi\<close> is the first success of \<open>f\<close> among \<open>hi, hi - 1, \<dots>, lo\<close>.
\<close>

primrec tries :: "(nat \<Rightarrow> 'a option) \<Rightarrow> nat \<Rightarrow> nat \<Rightarrow> 'a option" where
  "tries f lo 0 = (if lo = 0 then f 0 else None)"
| "tries f lo (Suc k) =
     (if Suc k < lo then None
      else case f (Suc k) of Some r \<Rightarrow> Some r | None \<Rightarrow> tries f lo k)"

text \<open>
  Whether a position is at the start of a line: the state before a piece of text is
  \<open>bol\<close>; after the piece it is decided by the last character of the piece.
\<close>

definition bol_after :: "bool \<Rightarrow> string \<Rightarrow> bool" where
  "bol_after bol u = (if u = [] then bol else last u = newline)"

definition shift :: "nat \<Rightarrow> (nat \<times> nat) option \<Rightarrow> (nat \<times> nat) option" where
  "shift k r = map_option (\<lambda>(g, n). (k + g, k + n)) r"

text \<open>
  \<open>rmatch as bol s\<close> matches the atoms \<open>as\<close> at the start of \<open>s\<close>, the way
  the backtracking matcher of \<open>re\<close> does. \<open>Some (g, n)\<close>: the match takes the first
  \<open>n\<close> characters of \<open>s\<close> and group 1 the first \<open>g\<close> of them.
\<close>

primrec rmatch :: "atom list \<Rightarrow> bool \<Rightarrow> string \<Rightarrow> (nat \<times> nat) option" where
  "rmatch [] bol s = Some (0, 0)"
| "rmatch (a # as) bol s =
     (case a of
        Bol \<Rightarrow> if bol then rmatch as bol s else None
      | Group_end \<Rightarrow> map_option (\<lambda>(g, n). (0, n)) (rmatch as bol s)
      | Lit c \<Rightarrow>
          (case s of
             [] \<Rightarrow> None
           | x # xs \<Rightarrow> if x = c then shift 1 (rmatch as (x = newline) xs) else None)
      | Plus cls \<Rightarrow>
          tries (\<lambda>k. shift k (rmatch as (bol_after bol (take k s)) (drop k s)))
            1 (length (takeWhile cls s))
      | Star cls \<Rightarrow>
          tries (\<lambda>k. shift k (rmatch as (bol_after bol (take k s)) (drop k s)))
            0 (length (takeWhile cls s)))"

text \<open>
  \<open>re.sub\<close> with a parsed replacement: scan from the left; at a match, emit the
  replacement, computed from the text of group 1 and of the whole match, and go on
  behind the match; otherwise copy one character. After an empty match one character is
  copied before the scan goes on (the patterns here match no empty string).
\<close>

function sub_scan :: "atom list \<Rightarrow> (string \<Rightarrow> string \<Rightarrow> string) \<Rightarrow> bool \<Rightarrow> string \<Rightarrow> string" where
  "sub_scan pat repl bol s =
     (case rmatch pat bol s of
        Some (g, n) \<Rightarrow>
          if 0 < n \<and> n \<le> length s then
            repl (take g s) (take n s) @ sub_scan pat repl (bol_after bol (take n s)) (drop n s)
          else
            (case s of
               [] \<Rightarrow> repl [] []
             | x # xs \<Rightarrow> repl [] [] @ x # sub_scan pat repl (x = newline) xs)
      | None \<Rightarrow>
          (case s of
             [] \<Rightarrow> []
           | x # xs \<Rightarrow> x # sub_scan pat repl (x = newline) xs))"
  by pat_completeness auto
termination
  by (relation "measure (\<lambda>(pat, repl, bol, s). length s)") auto

text \<open>
  Replacement templates. The script passes \<open>\g<1>\<close> followed by the interpolated
  value. When the value holds no backslash the replacement is the text of group 1
  followed by the value. A backslash in the value starts an escape of the template
  language (a group reference, an octal or control character, or an error \<open>re.error\<close>
  or \<open>IndexError\<close>); what the library does with such a template is the parameter
  \<open>lib\<close>: \<open>Inl e\<close> for an exception with text \<open>e\<close>, \<open>Inr f\<close> for the
  replacement function.
\<close>

type_synonym template_lib = "string \<Rightarrow> string + (string \<Rightarrow> string \<Rightarrow> string)"

definition plain_template :: "string \<Rightarrow> string option" where
  "plain_template tmpl =
     (if prefix (backslash # ''g<1>'') tmpl \<and> backslash \<notin> set (drop 5 tmpl)
      then Some (drop 5 tmpl) else None)"

definition parse_template :: "template_lib \<Rightarrow> string \<Rightarrow> string + (string \<Rightarrow> string \<Rightarrow> string)" where
  "parse_template lib tmpl =
     (case plain_template tmpl of
        Some v \<Rightarrow> Inr (\<lambda>g m. g @ v)
      | None \<Rightarrow> lib tmpl)"

definition re_sub :: "template_lib \<Rightarrow> atom list \<Rightarrow> string \<Rightarrow> string \<Rightarrow> string + string" where
  "re_sub lib pat tmpl content =
     (case parse_template lib tmpl of
        Inl e \<Rightarrow> Inl e
      | Inr repl \<Rightarrow> Inr (sub_scan pat repl True content))"

text \<open>
  The pattern \<open>(^\s+ansible_host:\s+)[\d\.]+\<close> and the pattern
  \<open>(^\s+ansible_password:\s+)"[^"]*"\<close>.
\<close>

definition host_key :: string where
  "host_key = ''ansible_host:''"

definition password_key :: string where
  "password_key = ''ansible_password:''"

definition host_pattern :: "atom list" where
  "host_pattern =
     Bol # Plus is_space # map Lit host_key @ [Plus is_space, Group_end, Plus digit_or_dot]"

definition password_pattern :: "atom list" where
  "password_pattern =
     Bol # Plus is_space # map Lit password_key
       @ [Plus is_space, Group_end, Lit quote, Star not_quote, Lit quote]"

text \<open>
  The two substitutions of the credential bridge on the inventory text: first the host,
  then the secret between double quotes. \<open>Inl e\<close>: \<open>re.sub\<close> raised.
\<close>

definition inventory_edit :: "template_lib \<Rightarrow> string \<Rightarrow> string \<Rightarrow> string \<Rightarrow> string + string" where
  "inventory_edit lib instance_ip password content =
     (case re_sub lib host_pattern (backslash # ''g<1>'' @ instance_ip) content of
        Inl e \<Rightarrow> Inl e
      | Inr content1 \<Rightarrow>
          re_sub lib password_pattern
            (backslash # ''g<1>'' @ quote # password @ [quote]) content1)"

subsection \<open>What the two patterns match, in closed form\<close>




text \<open>A non-empty run of whitespace.\<close>

definition blank :: "string \<Rightarrow> bool" where
  "blank u = (u \<noteq> [] \<and> (\<forall>c \<in> set u. is_space c))"



subsection \<open>Texts that differ in field values only\<close>



text \<open>
  \<open>values_replaced key ok new bol s s'\<close>: the text \<open>s'\<close> arises from \<open>s\<close>
  by replacing values of the field \<open>key\<close> by \<open>new\<close>, nothing else. A replaced
  value \<open>v\<close> satisfies \<open>ok\<close> and follows, at the start of a line, whitespace, the
  key and whitespace; every other character is kept, in order.
\<close>

inductive values_replaced ::
  "string \<Rightarrow> (string \<Rightarrow> bool) \<Rightarrow> string \<Rightarrow> bool \<Rightarrow> string \<Rightarrow> string \<Rightarrow> bool"
  for key :: string and ok :: "string \<Rightarrow> bool" and new :: string
where
  vr_end: "values_replaced key ok new bol [] []"
| vr_keep:
    "values_replaced key ok new (x = newline) s s'
     \<Longrightarrow> values_replaced key ok new bol (x # s) (x # s')"
| vr_value:
    "blank ws \<Longrightarrow> blank ws2 \<Longrightarrow> ok v \<Longrightarrow> values_replaced key ok new False r r'
     \<Longrightarrow> values_replaced key ok new True (ws @ key @ ws2 @ v @ r) (ws @ key @ ws2 @ new @ r')"

text \<open>
  The texts that \<open>re.sub\<close> replaces, group 1 left out: the values, in the order of
  the scan.
\<close>

function matched_values :: "atom list \<Rightarrow> bool \<Rightarrow> string \<Rightarrow> string list" where
  "matched_values pat bol s =
     (case rmatch pat bol s of
        Some (g, n) \<Rightarrow>
          if 0 < n \<and> n \<le> length s then
            drop g (take n s) # matched_values pat (bol_after bol (take n s)) (drop n s)
          else
            (case s of
               [] \<Rightarrow> []
             | x # xs \<Rightarrow> matched_values pat (x = newline) xs)
      | None \<Rightarrow>
          (case s of
             [] \<Rightarrow> []
           | x # xs \<Rightarrow> matched_values pat (x = newline) xs))"
  by pat_completeness auto
termination
  by (relation "measure (\<lambda>(pat, bol, s). length s)") auto

section \<open>The run: configure_with_ansible, ansible_only, main\<close>

text \<open>
  How a call ends: it returns a value, it ends the process with \<open>sys.exit(n)\<close>, or
  an exception leaves it. A process whose \<open>main\<close> returns ends with exit code 0; an
  uncaught exception ends it with exit code 1.
\<close>

datatype 'a outcome = Returns 'a | Exits int | Raises string

fun exit_code :: "'a outcome \<Rightarrow> int" where
  "exit_code (Returns _) = 0"
| "exit_code (Exits n) = n"
| "exit_code (Raises _) = 1"

text \<open>
  \<open>run_command(cmd, capture_output=True)\<close> either fails (\<open>CalledProcessError\<close>,
  with its text) or yields the standard output of the command.
\<close>

datatype cmd_result = Cmd_failed string | Cmd_output string

datatype action = Deploy | Destroy | Ansible_only

record args =
  action :: action
  environment :: string
  region :: string
  instance_type :: string
  elastic_ip :: bool
  create_rds :: bool
  skip_ansible :: bool
  force :: bool

text \<open>
  What the outside world answers during one run. The prerequisite check, the Terraform
  phase and the teardown enter as their outcomes only (\<open>check_prerequisites\<close> and
  \<open>destroy_infrastructure\<close> return nothing or exit, \<open>deploy_infrastructure\<close>
  returns the instance address and identifier or exits). \<open>network\<close> answers the
  connection attempts, \<open>password_cmd\<close> is the outcome of
  \<open>aws ec2 get-password-data\<close>, \<open>playbook_codes\<close> gives the return codes of the
  successive ansible-playbook invocations and \<open>template_escapes\<close> is the template
  parser of \<open>re\<close> on templates with further escapes. The inventory file is a state
  of its own: \<open>None\<close> when it cannot be opened for reading, else its text. Calls
  that the script does not guard and that are taken to succeed: \<open>os.chdir\<close>, opening
  the inventory for writing, and starting the shell of \<open>subprocess.run\<close>.
\<close>

record world =
  prerequisites :: "unit outcome"
  provisioning :: "(string \<times> string) outcome"
  teardown :: "unit outcome"
  network :: "int \<Rightarrow> conn"
  password_cmd :: cmd_result
  template_escapes :: template_lib
  playbook_codes :: "nat \<Rightarrow> int"

definition not_ready_hint :: "event list" where
  "not_ready_hint =
     [Log WARNING [Txt ''Instance not ready. You can run Ansible manually later.''],
      Log INFO [Txt ''Manual command: ansible-playbook -i ansible/inventory/hosts.yml ansible/playbooks/site.yml'']]"

definition password_missing :: "string \<Rightarrow> string \<Rightarrow> event list" where
  "password_missing instance_id rgn =
     [Log WARNING [Txt ''Could not retrieve password. Please get it manually:''],
      Log INFO [Txt ''aws ec2 get-password-data --instance-id '', Str instance_id,
                Txt '' --priv-launch-key terraform/dc-automation-key --region '', Str rgn]]"

definition playbook_start :: "event list" where
  "playbook_start =
     [Chdir ''ansible'',
      rule60 INFO,
      Log INFO [Txt ''STARTING ANSIBLE PLAYBOOK EXECUTION''],
      Log INFO [Txt ''This will take 25-40 minutes to complete...''],
      rule60 INFO,
      Log INFO [],
      Log INFO [Txt ''Executing: ansible-playbook -i inventory/hosts.yml playbooks/site.yml -v''],
      Log INFO []]"

definition playbook_exhausted :: "int \<Rightarrow> event list" where
  "playbook_exhausted max_retries =
     [Log ERROR [],
      Log ERROR [Txt ''Ansible playbook failed after '', Num (max_retries + 1), Txt '' attempts'']]"

definition summary :: "string \<Rightarrow> string \<Rightarrow> event list" where
  "summary instance_ip password =
     [Banner ''DEPLOYMENT COMPLETED SUCCESSFULLY!'',
      Log INFO [Txt ''RDP: '', Str instance_ip, Txt '':3389''],
      Log INFO [Txt ''IIS: http://'', Str instance_ip],
      Log INFO [Txt ''Administrator Password: '', Secret password]]"

text \<open>
  The branch \<open>if password:\<close> of the \<open>try\<close> block, for a non-empty password:
  read the inventory, edit it, write it back, run the playbook under the retry loop with
  \<open>max_retries = 2\<close>, print the summary. The result is the trace, the inventory file
  afterwards, and the exception that left the branch, if one did.
\<close>

definition bridge_and_configure ::
  "world \<Rightarrow> string option \<Rightarrow> string \<Rightarrow> string \<Rightarrow> event list \<times> string option \<times> string option" where
  "bridge_and_configure w file instance_ip password =
     (let start = [Log SUCCESS [Txt ''Password retrieved successfully''], Read_inventory]
      in case file of
           None \<Rightarrow> (start, file, Some ''FileNotFoundError'')
         | Some content \<Rightarrow>
             (case inventory_edit (template_escapes w) instance_ip password content of
                Inl e \<Rightarrow> (start, file, Some e)
              | Inr content' \<Rightarrow>
                  let max_retries = 2;
                      (tr, success) = playbook_loop (playbook_codes w) max_retries 0 False
                  in (start
                      @ [Write_inventory content',
                         Log SUCCESS [Txt ''Updated inventory with IP: '', Str instance_ip,
                                      Txt '' and password'']]
                      @ playbook_start @ tr @ [Chdir ''..'']
                      @ (if \<not> success then playbook_exhausted max_retries else [])
                      @ summary instance_ip password,
                      Some content', None)))"

definition configure_with_ansible ::
  "world \<Rightarrow> string option \<Rightarrow> string \<Rightarrow> string \<Rightarrow> args
     \<Rightarrow> event list \<times> string option \<times> unit outcome" where
  "configure_with_ansible w file instance_ip instance_id a =
     (let (probe, ready) = test_winrm_connectivity (network w) instance_ip 5985 20;
          phase2 = Banner ''PHASE 2: WAITING FOR INSTANCE TO BE READY'' # probe
      in case ready of
           Inl e \<Rightarrow> (phase2, file, Raises e)
         | Inr False \<Rightarrow> (phase2 @ not_ready_hint, file, Returns ())
         | Inr True \<Rightarrow>
             let phase3 = phase2
                   @ [Banner ''PHASE 3: ANSIBLE CONFIGURATION'',
                      Log INFO [Txt ''Getting Windows Administrator password...''],
                      Get_password instance_id (region a)]
             in (case password_cmd w of
                   Cmd_failed e \<Rightarrow>
                     (phase3 @ [Log ERROR [Txt ''Command failed: '', Exn e]], file, Exits 1)
                 | Cmd_output out \<Rightarrow>
                     let password = strip out
                     in if password \<noteq> [] then
                          (case bridge_and_configure w file instance_ip password of
                             (tr, file', None) \<Rightarrow> (phase3 @ tr, file', Returns ())
                           | (tr, file', Some e) \<Rightarrow>
                               (phase3 @ tr
                                @ [Log ERROR [Txt ''Error retrieving password: '', Exn e]],
                                file', Returns ()))
                        else (phase3 @ password_missing instance_id (region a), file, Returns ())))"

text \<open>
  \<open>ansible_only\<close>: the inventory must hold the text \<open>ansible_password:\<close>;
  otherwise the function logs an error and calls \<open>sys.exit(1)\<close>. The return code of
  the playbook is not looked at.
\<close>

definition ansible_only :: "world \<Rightarrow> string option \<Rightarrow> event list \<times> unit outcome" where
  "ansible_only w file =
     (let start = [Banner ''RUNNING ANSIBLE CONFIGURATION ONLY'', Read_inventory]
      in case file of
           None \<Rightarrow> (start, Raises ''FileNotFoundError'')
         | Some inventory \<Rightarrow>
             if \<not> contains ''ansible_password:'' inventory then
               (start
                @ [Log ERROR [Txt ''Password not found in inventory. Please run full deployment first.''],
                   Log INFO [Txt ''Or manually add ansible_password to ansible/inventory/hosts.yml'']],
                Exits 1)
             else (start @ [Chdir ''ansible'', Run_playbook, Chdir ''..''], Returns ()))"

definition script_completed :: event where
  "script_completed = Log SUCCESS [Txt ''Script completed!'']"

text \<open>
  \<open>main\<close> after argument parsing. The result is the trace of the process, the
  inventory file at its end, and how \<open>main\<close> ended.
\<close>

definition main :: "world \<Rightarrow> string option \<Rightarrow> args \<Rightarrow> event list \<times> string option \<times> unit outcome" where
  "main w file a =
     (let start = [Banner ''DC AUTOMATION - TERRAFORM + ANSIBLE DEPLOYMENT'', Check_prerequisites]
      in case prerequisites w of
           Exits n \<Rightarrow> (start, file, Exits n)
         | Raises e \<Rightarrow> (start, file, Raises e)
         | Returns _ \<Rightarrow>
             (case action a of
                Deploy \<Rightarrow>
                  (case provisioning w of
                     Exits n \<Rightarrow> (start @ [Deploy_infrastructure], file, Exits n)
                   | Raises e \<Rightarrow> (start @ [Deploy_infrastructure], file, Raises e)
                   | Returns (instance_ip, instance_id) \<Rightarrow>
                       if \<not> skip_ansible a then
                         (case configure_with_ansible w file instance_ip instance_id a of
                            (tr, file', Returns _) \<Rightarrow>
                              (start @ Deploy_infrastructure # tr @ [script_completed], file', Returns ())
                          | (tr, file', Exits n) \<Rightarrow>
                              (start @ Deploy_infrastructure # tr, file', Exits n)
                          | (tr, file', Raises e) \<Rightarrow>
                              (start @ Deploy_infrastructure # tr, file', Raises e))
                       else (start @ [Deploy_infrastructure, script_completed], file, Returns ()))
              | Destroy \<Rightarrow>
                  (case teardown w of
                     Returns _ \<Rightarrow> (start @ [Destroy_infrastructure, script_completed], file, Returns ())
                   | Exits n \<Rightarrow> (start @ [Destroy_infrastructure], file, Exits n)
                   | Raises e \<Rightarrow> (start @ [Destroy_infrastructure], file, Raises e))
              | Ansible_only \<Rightarrow>
                  (case ansible_only w file of
                     (tr, Returns _) \<Rightarrow> (start @ tr @ [script_completed], file, Returns ())
                   | (tr, Exits n) \<Rightarrow> (start @ tr, file, Exits n)
                   | (tr, Raises e) \<Rightarrow> (start @ tr, file, Raises e))))"

text \<open>Observations on the trace of a run.\<close>

fun mentions_secret :: "event \<Rightarrow> bool" where
  "mentions_secret (Log lv msg) = (\<exists>f \<in> set msg. case f of Secret _ \<Rightarrow> True | _ \<Rightarrow> False)"
| "mentions_secret _ = False"

fun is_log :: "event \<Rightarrow> bool" where
  "is_log (Log _ _) = True"
| "is_log _ = False"

fun touches_credentials :: "event \<Rightarrow> bool" where
  "touches_credentials (Get_password _ _) = True"
| "touches_credentials Read_inventory = True"
| "touches_credentials (Write_inventory _) = True"
| "touches_credentials Run_playbook = True"
| "touches_credentials _ = False"

fun is_write :: "event \<Rightarrow> bool" where
  "is_write (Write_inventory _) = True"
| "is_write _ = False"

section \<open>Provisioning phase: the variables file of deploy_infrastructure\<close>

text \<open>
  \<open>s.replace(old, new)\<close>: every occurrence of \<open>old\<close> is replaced, scanning from
  the left, occurrences not overlapping. \<open>replace_all\<close> is the scan for a non-empty
  \<open>old\<close>; for the empty \<open>old\<close> Python puts \<open>new\<close> before every character and
  at the end.
\<close>

function replace_all :: "string \<Rightarrow> string \<Rightarrow> string \<Rightarrow> string" where
  "replace_all old new [] = []"
| "replace_all old new (x # xs) =
     (if old \<noteq> [] \<and> prefix old (x # xs)
      then new @ replace_all old new (drop (length old) (x # xs))
      else x # replace_all old new xs)"
  by pat_completeness auto
termination
  by (relation "measure (\<lambda>(old, new, s). length s)") auto

definition py_replace :: "string \<Rightarrow> string \<Rightarrow> string \<Rightarrow> string" where
  "py_replace old new s =
     (if old = [] then new @ concat (map (\<lambda>c. c # new) s) else replace_all old new s)"

text \<open>\<open>str(b).lower()\<close> for a Boolean \<open>b\<close>.\<close>

definition bool_lower :: "bool \<Rightarrow> string" where
  "bool_lower b = (if b then ''true'' else ''false'')"

text \<open>
  The assignments that the script searches for and writes: \<open>key = "value"\<close> for the
  three strings, \<open>key = value\<close> for the two flags.
\<close>

definition quoted_assignment :: "string \<Rightarrow> string \<Rightarrow> string" where
  "quoted_assignment key v = key @ '' = '' @ quote # v @ [quote]"

definition plain_assignment :: "string \<Rightarrow> string \<Rightarrow> string" where
  "plain_assignment key v = key @ '' = '' @ v"

text \<open>
  The five replacements on the text of \<open>terraform.tfvars.example\<close>, in the order
  of the script. The template is a file of the repository that deploy.py reads; it
  enters as the parameter \<open>tfvars_content\<close>.
\<close>

definition update_values :: "args \<Rightarrow> string \<Rightarrow> string" where
  "update_values a tfvars_content =
     (let c1 = py_replace (quoted_assignment ''environment'' ''dev'')
                 (quoted_assignment ''environment'' (environment a)) tfvars_content;
          c2 = py_replace (quoted_assignment ''aws_region'' ''us-east-1'')
                 (quoted_assignment ''aws_region'' (region a)) c1;
          c3 = py_replace (quoted_assignment ''instance_type'' ''t3a.medium'')
                 (quoted_assignment ''instance_type'' (instance_type a)) c2;
          c4 = py_replace (plain_assignment ''use_elastic_ip'' ''false'')
                 (plain_assignment ''use_elastic_ip'' (bool_lower (elastic_ip a))) c3;
          c5 = py_replace (plain_assignment ''create_rds'' ''false'')
                 (plain_assignment ''create_rds'' (bool_lower (create_rds a))) c4
      in c5)"

text \<open>
  The step \<open>if not tfvars_path.exists()\<close>: the variables file after it, given the
  file before it (\<open>None\<close> when it does not exist) and the text of the template.
\<close>

definition create_tfvars :: "args \<Rightarrow> string option \<Rightarrow> string \<Rightarrow> string" where
  "create_tfvars a existing template =
     (case existing of None \<Rightarrow> update_values a template | Some c \<Rightarrow> c)"

text \<open>The lines of a text, as \<open>s.split('\n')\<close> gives them.\<close>

fun split_lines :: "string \<Rightarrow> string list" where
  "split_lines [] = [[]]"
| "split_lines (x # xs) =
     (if x = newline then [] # split_lines xs
      else (case split_lines xs of [] \<Rightarrow> [[x]] | l # ls \<Rightarrow> (x # l) # ls))"

text \<open>The five default assignments that the replacements search for.\<close>

definition default_assignments :: "string list" where
  "default_assignments =
     [quoted_assignment ''environment'' ''dev'',
      quoted_assignment ''aws_region'' ''us-east-1'',
      quoted_assignment ''instance_type'' ''t3a.medium'',
      plain_assignment ''use_elastic_ip'' ''false'',
      plain_assignment ''create_rds'' ''false'']"

text \<open>A name as the three string options carry it: no blank and no line break in it.\<close>

definition plain_name :: "string \<Rightarrow> bool" where
  "plain_name v = (CHR '' '' \<notin> set v \<and> newline \<notin> set v)"

section \<open>A sample run\<close>

text \<open>
  A concrete world, inventory and argument record, used to instantiate the theorems:
  the instance accepts the third connection attempt, the password command prints a
  password followed by a line break, and the playbook fails once and then succeeds.
\<close>

definition sample_inventory :: string where
  "sample_inventory =
     ''all:'' @ newline #
     ''  hosts:'' @ newline #
     ''    dc01:'' @ newline #
     ''      ansible_host: 10.0.0.1'' @ newline #
     ''      ansible_user: Administrator'' @ newline #
     ''      ansible_password: '' @ quote # ''old'' @ quote # newline #
     ''      # managed by deploy.py'' @ [newline]"

definition sample_world :: world where
  "sample_world =
     \<lparr>prerequisites = Returns (),
      provisioning = Returns (''203.0.113.5'', ''i-0abc''),
      teardown = Returns (),
      network = (\<lambda>k. if k = 3 then Connect_ex 0 else Connect_ex 111),
      password_cmd = Cmd_output (''S3cret!pw'' @ [newline]),
      template_escapes = (\<lambda>t. Inl ''bad escape''),
      playbook_codes = (\<lambda>n. if n = 0 then 2 else 0)\<rparr>"

definition sample_args :: "action \<Rightarrow> args" where
  "sample_args act =
     \<lparr>action = act, environment = ''staging'', region = ''eu-west-1'',
      instance_type = ''t3a.medium'', elastic_ip = False, create_rds = False,
      skip_ansible = False, force = True\<rparr>"




text \<open>A template made of a comment and the five default assignments.\<close>

definition sample_template :: string where
  "sample_template =
     ''# variables'' @ newline #
     quoted_assignment ''environment'' ''dev'' @ newline #
     quoted_assignment ''aws_region'' ''us-east-1'' @ newline #
     quoted_assignment ''instance_type'' ''t3a.medium'' @ newline #
     plain_assignment ''use_elastic_ip'' ''false'' @ newline #
     plain_assignment ''create_rds'' ''false'' @ [newline]"

text \<open>The sample world with an instance that refuses every connection.\<close>

definition unreachable_world :: world where
  "unreachable_world = sample_world\<lparr>network := (\<lambda>k. Connect_ex 111)\<rparr>"

text \<open>The sample world where the platform has not generated the password yet.\<close>

definition no_secret_world :: world where
  "no_secret_world =
     sample_world\<lparr>network := (\<lambda>k. Connect_ex 0), password_cmd := Cmd_output [newline]\<rparr>"

text \<open>
  The events of \<open>configure_with_ansible\<close> up to and including the password command,
  in a run whose readiness check succeeded.
\<close>

definition phase3_of :: "world \<Rightarrow> string \<Rightarrow> string \<Rightarrow> args \<Rightarrow> event list" where
  "phase3_of w instance_ip instance_id a =
     (Banner ''PHASE 2: WAITING FOR INSTANCE TO BE READY''
       # fst (test_winrm_connectivity (network w) instance_ip 5985 20))
     @ [Banner ''PHASE 3: ANSIBLE CONFIGURATION'',
        Log INFO [Txt ''Getting Windows Administrator password...''],
        Get_password instance_id (region a)]"

section \<open>Properties of the readiness prober\<close>

declare winrm_loop.simps [simp del]

lemma alternate_step: "0 < n \<Longrightarrow> a # s # alternate n a s = alternate (Suc n) a s"
  by (cases n) auto

lemma io_of_append: "io_of (xs @ ys) = io_of xs @ io_of ys"
  by (simp add: io_of_def)

lemma io_of_ready: "io_of winrm_ready = []"
  by (simp add: io_of_def winrm_ready_def rule60_def)

lemma io_of_gave_up: "io_of (winrm_gave_up m) = []"
  by (simp add: io_of_def winrm_gave_up_def)

lemma io_of_header: "io_of (winrm_header ip port) = []"
  by (simp add: io_of_def winrm_header_def rule60_def)

lemma winrm_loop_done:
  "\<not> attempt < m + 1 \<Longrightarrow> winrm_loop net ip port m attempt = (winrm_gave_up m, Inr False)"
  by (subst winrm_loop.simps) simp

lemma winrm_loop_ok:
  "attempt < m + 1 \<Longrightarrow> net attempt = Connect_ex 0 \<Longrightarrow>
   winrm_loop net ip port m attempt =
     (winrm_attempt m attempt # Connect ip port 5 # winrm_ready, Inr True)"
  by (subst winrm_loop.simps) simp

lemma winrm_loop_fail:
  "attempt < m + 1 \<Longrightarrow> net attempt \<noteq> Connect_ex 0 \<Longrightarrow>
   \<exists>w. \<not> is_io w \<and> fst (winrm_loop net ip port m attempt) =
       winrm_attempt m attempt # Connect ip port 5 # w # (if attempt < m then [Sleep 30] else [])
        @ fst (winrm_loop net ip port m (attempt + 1))
     \<and> snd (winrm_loop net ip port m attempt) = snd (winrm_loop net ip port m (attempt + 1))"
  apply (simp only: winrm_loop.simps [of net ip port m attempt])
  apply (cases "net attempt")
  apply (auto simp: Let_def winrm_not_open_def winrm_test_failed_def split: prod.splits)
  done

lemma io_winrm_loop_fail:
  assumes "attempt < m + 1" "net attempt \<noteq> Connect_ex 0"
  shows "io_of (fst (winrm_loop net ip port m attempt)) =
       Connect ip port 5 # (if attempt < m then [Sleep 30] else [])
        @ io_of (fst (winrm_loop net ip port m (attempt + 1)))"
  using winrm_loop_fail [where net = net and attempt = attempt and m = m and ip = ip and port = port] assms
  by (auto simp: io_of_def winrm_attempt_def)

lemma snd_winrm_loop_fail:
  assumes "attempt < m + 1" "net attempt \<noteq> Connect_ex 0"
  shows "snd (winrm_loop net ip port m attempt) = snd (winrm_loop net ip port m (attempt + 1))"
  using winrm_loop_fail [where net = net and attempt = attempt and m = m and ip = ip and port = port] assms by auto

lemma winrm_loop_never:
  "never_accepts net a m \<Longrightarrow>
   snd (winrm_loop net ip port m a) = Inr False \<and>
   io_of (fst (winrm_loop net ip port m a)) =
     alternate (nat (m + 1 - a)) (Connect ip port 5) (Sleep 30)"
proof (induction net ip port m a rule: winrm_loop.induct)
  case (1 net ip port m a)
  show ?case
  proof (cases "a < m + 1")
    case False
    then show ?thesis by (simp add: winrm_loop_done io_of_gave_up)
  next
    case True
    from 1(3) True have na: "net a \<noteq> Connect_ex 0" by (simp add: never_accepts_def)
    from 1(3) have nxt: "never_accepts net (a + 1) m" by (simp add: never_accepts_def)
    have ih: "snd (winrm_loop net ip port m (a + 1)) = Inr False \<and>
       io_of (fst (winrm_loop net ip port m (a + 1))) =
         alternate (nat (m + 1 - (a + 1))) (Connect ip port 5) (Sleep 30)"
    proof (cases "net a")
      case (Connect_ex r)
      with na have "r \<noteq> 0" by simp
      from 1(1) [OF True Connect_ex this nxt] show ?thesis .
    next
      case (Raised e)
      from 1(2) [OF True Raised nxt] show ?thesis .
    qed
    show ?thesis
    proof (cases "a < m")
      case False
      with True have "a = m" by simp
      then show ?thesis using ih True na
        by (simp add: io_winrm_loop_fail snd_winrm_loop_fail)
    next
      case lt: True
      then obtain n where n: "nat (m + 1 - (a + 1)) = Suc n" by (cases "nat (m + 1 - (a + 1))") auto
      then have "nat (m + 1 - a) = Suc (Suc n)" by linarith
      then show ?thesis using ih True na lt n
        by (simp add: io_winrm_loop_fail snd_winrm_loop_fail)
    qed
  qed
qed

lemma winrm_loop_first:
  "a \<le> k \<Longrightarrow> k \<le> m \<Longrightarrow> net k = Connect_ex 0 \<Longrightarrow> never_accepts net a (k - 1) \<Longrightarrow>
   snd (winrm_loop net ip port m a) = Inr True \<and>
   io_of (fst (winrm_loop net ip port m a)) =
     alternate (nat (k + 1 - a)) (Connect ip port 5) (Sleep 30) \<and>
   (\<exists>pre. fst (winrm_loop net ip port m a) = pre @ Connect ip port 5 # winrm_ready)"
proof (induction net ip port m a rule: winrm_loop.induct)
  case (1 net ip port m a)
  from 1(3,4) have True: "a < m + 1" by simp
  show ?case
  proof (cases "a = k")
    case True
    with 1(5) \<open>a < m + 1\<close> show ?thesis
      by (auto simp: winrm_loop_ok io_of_def winrm_attempt_def winrm_ready_def rule60_def
          intro: exI [where x = "[winrm_attempt m k]"])
  next
    case False
    with 1(3) have lt: "a < k" by simp
    with 1(6) have na: "net a \<noteq> Connect_ex 0" by (simp add: never_accepts_def)
    from 1(6) have nxt: "never_accepts net (a + 1) (k - 1)" by (simp add: never_accepts_def)
    from lt have le: "a + 1 \<le> k" by simp
    have ih: "snd (winrm_loop net ip port m (a + 1)) = Inr True \<and>
       io_of (fst (winrm_loop net ip port m (a + 1))) =
         alternate (nat (k + 1 - (a + 1))) (Connect ip port 5) (Sleep 30) \<and>
       (\<exists>pre. fst (winrm_loop net ip port m (a + 1)) = pre @ Connect ip port 5 # winrm_ready)"
    proof (cases "net a")
      case (Connect_ex r)
      with na have "r \<noteq> 0" by simp
      from 1(1) [OF True Connect_ex this le 1(4,5) nxt] show ?thesis .
    next
      case (Raised e)
      from 1(2) [OF True Raised le 1(4,5) nxt] show ?thesis .
    qed
    from lt 1(4) have am: "a < m" by simp
    from lt obtain n where n: "nat (k + 1 - (a + 1)) = Suc n" by (cases "nat (k + 1 - (a + 1))") auto
    then have n2: "nat (k + 1 - a) = Suc (Suc n)" by linarith
    from ih obtain pre where pre: "fst (winrm_loop net ip port m (a + 1)) = pre @ Connect ip port 5 # winrm_ready"
      by blast
    from winrm_loop_fail [where net = net and attempt = a and m = m and ip = ip and port = port] True na obtain w where
      w: "fst (winrm_loop net ip port m a) =
       winrm_attempt m a # Connect ip port 5 # w # (if a < m then [Sleep 30] else [])
        @ fst (winrm_loop net ip port m (a + 1))" by blast
    have "fst (winrm_loop net ip port m a) =
       (winrm_attempt m a # Connect ip port 5 # w # Sleep 30 # pre) @ Connect ip port 5 # winrm_ready"
      using w pre am by simp
    then have ex: "\<exists>pre. fst (winrm_loop net ip port m a) = pre @ Connect ip port 5 # winrm_ready"
      by blast
    show ?thesis using ih True na am n n2 ex
      by (simp add: io_winrm_loop_fail snd_winrm_loop_fail)
  qed
qed


lemma test_winrm_unfold:
  "fst (test_winrm_connectivity net ip port m) = winrm_header ip port @ fst (winrm_loop net ip port m 1)"
  "snd (test_winrm_connectivity net ip port m) = snd (winrm_loop net ip port m 1)"
  by (simp_all add: test_winrm_connectivity_def split_def Let_def)

lemma connects_alternate:
  "filter is_connect (alternate n (Connect ip port t) (Sleep d)) = replicate n (Connect ip port t)"
  by (induction n "Connect ip port t" "Sleep d" rule: alternate.induct) auto

lemma connects_io_of: "filter is_connect (io_of tr) = filter is_connect tr"
proof -
  have "\<And>e. is_connect e \<Longrightarrow> is_io e" by (case_tac e) auto
  then show ?thesis unfolding io_of_def by (induction tr) auto
qed

lemma winrm_loop_bounded:
  "\<exists>n. n \<le> nat (m + 1 - a) \<and> (a \<le> m \<longrightarrow> 0 < n) \<and>
       io_of (fst (winrm_loop net ip port m a)) = alternate n (Connect ip port 5) (Sleep 30)"
proof (cases "never_accepts net a m")
  case True
  from winrm_loop_never [OF this, of ip port] show ?thesis
    by (intro exI [where x = "nat (m + 1 - a)"]) auto
next
  case False
  then have "\<exists>d. net (a + int d) = Connect_ex 0 \<and> a + int d \<le> m"
    unfolding never_accepts_def by (metis nat_0_le diff_ge_0_iff_ge add_diff_cancel_left' 
        add.commute diff_add_cancel)
  then obtain d where d: "net (a + int d) = Connect_ex 0 \<and> a + int d \<le> m"
    and least: "\<And>d'. d' < d \<Longrightarrow> \<not> (net (a + int d') = Connect_ex 0 \<and> a + int d' \<le> m)"
    using exists_least_iff [of "\<lambda>d. net (a + int d) = Connect_ex 0 \<and> a + int d \<le> m"] by blast
  have "never_accepts net a (a + int d - 1)"
    unfolding never_accepts_def
  proof (intro allI impI)
    fix j assume j: "a \<le> j \<and> j \<le> a + int d - 1"
    then have "nat (j - a) < d" by linarith
    from least [OF this] j d show "net j \<noteq> Connect_ex 0" by auto
  qed
  from winrm_loop_first [OF _ _ _ this, of m ip port] d
  have "io_of (fst (winrm_loop net ip port m a)) =
          alternate (nat (a + int d + 1 - a)) (Connect ip port 5) (Sleep 30)" by simp
  with d show ?thesis
    by (intro exI [where x = "nat (a + int d + 1 - a)"]) auto
qed

text \<open>
  Claim C2. A run of the readiness prober makes at most \<open>max_attempts\<close> connection
  attempts, each on the given host and port with the timeout 5; its sleeps are all of
  30 seconds and stand exactly between two consecutive attempts (the attempts and sleeps
  of the trace alternate, starting and ending with an attempt). When attempt \<open>k\<close> is
  the first that is accepted, the prober returns True, has made exactly \<open>k\<close>
  attempts, and nothing but the success messages follows the accepted attempt.
\<close>

theorem readiness_prober_bounded_and_immediate:
  fixes net ip port max_attempts
  defines "run \<equiv> test_winrm_connectivity net ip port max_attempts"
  shows "(\<exists>n. n \<le> nat max_attempts \<and>
              io_of (fst run) = alternate n (Connect ip port 5) (Sleep 30) \<and>
              length (filter is_connect (fst run)) = n) \<and>
         (\<forall>k. 1 \<le> k \<and> k \<le> max_attempts \<and> net k = Connect_ex 0 \<and> never_accepts net 1 (k - 1) \<longrightarrow>
              snd run = Inr True \<and>
              io_of (fst run) = alternate (nat k) (Connect ip port 5) (Sleep 30) \<and>
              (\<exists>pre. fst run = pre @ Connect ip port 5 # winrm_ready))"
proof (intro conjI allI impI)
  obtain n where n: "n \<le> nat (max_attempts + 1 - 1)"
      "io_of (fst (winrm_loop net ip port max_attempts 1)) = alternate n (Connect ip port 5) (Sleep 30)"
    using winrm_loop_bounded [of max_attempts 1 net ip port] by blast
  then have io: "io_of (fst run) = alternate n (Connect ip port 5) (Sleep 30)"
    by (simp add: run_def test_winrm_unfold io_of_append io_of_header)
  have "filter is_connect (fst run) = filter is_connect (io_of (fst run))"
    by (simp add: connects_io_of)
  then have "length (filter is_connect (fst run)) = n"
    by (simp add: io connects_alternate)
  with n io show "\<exists>n. n \<le> nat max_attempts \<and>
              io_of (fst run) = alternate n (Connect ip port 5) (Sleep 30) \<and>
              length (filter is_connect (fst run)) = n" by auto
next
  fix k
  assume k: "1 \<le> k \<and> k \<le> max_attempts \<and> net k = Connect_ex 0 \<and> never_accepts net 1 (k - 1)"
  then have a: "1 \<le> k" and b: "k \<le> max_attempts" and c: "net k = Connect_ex 0"
    and d: "never_accepts net 1 (k - 1)" by auto
  note first = winrm_loop_first [OF a b c d, of ip port]
  from first show "snd run = Inr True"
    by (simp add: run_def test_winrm_unfold)
  from first show "io_of (fst run) = alternate (nat k) (Connect ip port 5) (Sleep 30)"
    by (simp add: run_def test_winrm_unfold io_of_append io_of_header)
  from first obtain pre where
    "fst (winrm_loop net ip port max_attempts 1) = pre @ Connect ip port 5 # winrm_ready" by blast
  then have "fst run = (winrm_header ip port @ pre) @ Connect ip port 5 # winrm_ready"
    by (simp add: run_def test_winrm_unfold)
  then show "\<exists>pre. fst run = pre @ Connect ip port 5 # winrm_ready" by blast
qed

text \<open>
  Witness for C2: the instance refuses the first two attempts and accepts the third,
  with the default budget of 20 attempts.
\<close>

theorem readiness_prober_bounded_and_immediate_witness:
  "(1::int) \<le> 3 \<and> (3::int) \<le> 20 \<and>
   never_accepts (\<lambda>k. if k = 3 then Connect_ex 0 else Connect_ex 111) 1 (3 - 1) \<and>
   snd (test_winrm_connectivity (\<lambda>k. if k = 3 then Connect_ex 0 else Connect_ex 111)
          ''203.0.113.5'' 5985 20) = Inr True \<and>
   io_of (fst (test_winrm_connectivity (\<lambda>k. if k = 3 then Connect_ex 0 else Connect_ex 111)
          ''203.0.113.5'' 5985 20)) =
     [Connect ''203.0.113.5'' 5985 5, Sleep 30, Connect ''203.0.113.5'' 5985 5, Sleep 30,
      Connect ''203.0.113.5'' 5985 5]"
proof -
  let ?net = "\<lambda>k::int. if k = 3 then Connect_ex 0 else Connect_ex 111"
  have na: "never_accepts ?net 1 (3 - 1)" by (simp add: never_accepts_def)
  from readiness_prober_bounded_and_immediate [of 20 ?net "''203.0.113.5''" 5985] na
  have "snd (test_winrm_connectivity ?net ''203.0.113.5'' 5985 20) = Inr True \<and>
        io_of (fst (test_winrm_connectivity ?net ''203.0.113.5'' 5985 20)) =
          alternate (nat 3) (Connect ''203.0.113.5'' 5985 5) (Sleep 30)"
    by (elim conjE allE [where x = 3]) simp
  with na show ?thesis by (simp add: numeral_3_eq_3)
qed

text \<open>
  Claim C7. When the host accepts none of the attempts 1 to \<open>max_attempts\<close>, whether
  the connection is refused or a socket call raises, the prober returns False to its
  caller (no exception leaves it), after exactly \<open>max_attempts\<close> attempts.
\<close>

theorem readiness_prober_exhausted_returns_false:
  assumes "never_accepts net 1 max_attempts"
  shows "snd (test_winrm_connectivity net ip port max_attempts) = Inr False \<and>
         length (filter is_connect (fst (test_winrm_connectivity net ip port max_attempts)))
           = nat max_attempts"
proof -
  note never = winrm_loop_never [OF assms, of ip port]
  have "filter is_connect (fst (test_winrm_connectivity net ip port max_attempts))
        = filter is_connect (io_of (fst (test_winrm_connectivity net ip port max_attempts)))"
    by (simp add: connects_io_of)
  also have "\<dots> = replicate (nat max_attempts) (Connect ip port 5)"
    using never
    by (simp add: test_winrm_unfold io_of_append io_of_header
        connects_alternate)
  finally show ?thesis using never
    by (simp add: test_winrm_unfold)
qed

text \<open>
  Witness for C7: a host on which every socket call raises, polled with the default
  budget.
\<close>

theorem readiness_prober_exhausted_returns_false_witness:
  "never_accepts (\<lambda>k. Raised ''timed out'') 1 20 \<and>
   snd (test_winrm_connectivity (\<lambda>k. Raised ''timed out'') ''203.0.113.5'' 5985 20) = Inr False \<and>
   length (filter is_connect
     (fst (test_winrm_connectivity (\<lambda>k. Raised ''timed out'') ''203.0.113.5'' 5985 20))) = 20"
proof -
  have na: "never_accepts (\<lambda>k. Raised ''timed out'') 1 20" by (simp add: never_accepts_def)
  from readiness_prober_exhausted_returns_false [OF na, of "''203.0.113.5''" 5985] na
  show ?thesis by simp
qed

section \<open>Properties of the playbook retry loop\<close>

declare playbook_loop.simps [simp del]

lemma runs_of_append: "runs_of (xs @ ys) = runs_of xs @ runs_of ys"
  by (simp add: runs_of_def)

lemma runs_of_Nil: "runs_of [] = []"
  by (simp add: runs_of_def)

lemma runs_of_Cons: "runs_of (e # es) = (if is_run_or_sleep e then [e] else []) @ runs_of es"
  by (simp add: runs_of_def)

lemma runs_of_retrying: "runs_of (playbook_retrying m r) = [Sleep 30]"
  by (simp add: runs_of_def playbook_retrying_def)

lemma runs_of_completed: "runs_of playbook_completed = []"
  by (simp add: runs_of_def playbook_completed_def rule60_def)

lemma playbook_loop_stop:
  "\<not> (r \<le> m \<and> \<not> s) \<Longrightarrow> playbook_loop engine m r s = ([], s)"
  by (subst playbook_loop.simps) (simp only: if_False)

lemma playbook_loop_success:
  "r \<le> m \<Longrightarrow> engine 0 = 0 \<Longrightarrow>
   playbook_loop engine m r False =
     ((if r > 0 then playbook_retrying m r else []) @ Run_playbook # playbook_completed, True)"
  by (subst playbook_loop.simps) (simp add: playbook_loop_stop)

lemma playbook_loop_failure:
  "r \<le> m \<Longrightarrow> engine 0 \<noteq> 0 \<Longrightarrow>
   playbook_loop engine m r False =
     ((if r > 0 then playbook_retrying m r else []) @ Run_playbook
        # (if r + 1 \<le> m then [playbook_will_retry] else [])
        @ fst (playbook_loop (\<lambda>n. engine (Suc n)) m (r + 1) False),
      snd (playbook_loop (\<lambda>n. engine (Suc n)) m (r + 1) False))"
  by (simp only: playbook_loop.simps [of engine m r False]) (simp add: Let_def split_def)

lemma playbook_loop_shape:
  "0 \<le> r \<Longrightarrow> r \<le> m \<Longrightarrow>
   \<exists>n. 0 < n \<and> n \<le> nat (m + 1 - r) \<and>
       runs_of (fst (playbook_loop engine m r False)) =
         (if r > 0 then [Sleep 30] else []) @ alternate n Run_playbook (Sleep 30) \<and>
       (\<forall>i. Suc i < n \<longrightarrow> engine i \<noteq> 0) \<and>
       (snd (playbook_loop engine m r False) \<longleftrightarrow> engine (n - 1) = 0) \<and>
       (\<not> snd (playbook_loop engine m r False) \<longrightarrow> n = nat (m + 1 - r))"
proof (induction "nat (m - r)" arbitrary: r engine)
  case 0
  then have rm: "r = m" by linarith
  show ?case
  proof (cases "engine 0 = 0")
    case True
    with rm show ?thesis
      by (intro exI [where x = 1])
         (simp add: playbook_loop_success runs_of_append runs_of_retrying runs_of_completed runs_of_Cons runs_of_Nil)
  next
    case False
    have stop: "playbook_loop (\<lambda>n. engine (Suc n)) m (r + 1) False = ([], False)"
      using rm by (intro playbook_loop_stop) simp
    have eq: "playbook_loop engine m r False =
        ((if r > 0 then playbook_retrying m r else []) @ [Run_playbook], False)"
      unfolding playbook_loop_failure [where engine = engine and m = m and r = r, OF "0.prems"(2) False] stop
      using rm by simp
    show ?thesis
      unfolding eq using rm False
      by (intro exI [where x = 1])
         (simp add: runs_of_append runs_of_retrying runs_of_Cons runs_of_Nil)
  qed
next
  case (Suc k)
  then have lt: "r + 1 \<le> m" and k: "k = nat (m - (r + 1))" by linarith+
  show ?case
  proof (cases "engine 0 = 0")
    case True
    have "Suc 0 \<le> nat (m + 1 - r)" using Suc(4) by linarith
    with True Suc(3,4) show ?thesis
      by (intro exI [where x = 1])
         (simp add: playbook_loop_success runs_of_append runs_of_retrying runs_of_completed runs_of_Cons runs_of_Nil)
  next
    case False
    let ?later = "\<lambda>n. engine (Suc n)"
    from Suc(3) have r1: "0 \<le> r + 1" by simp
    from Suc(1) [OF k r1 lt, of ?later] obtain n where n:
      "0 < n" "n \<le> nat (m + 1 - (r + 1))"
      "runs_of (fst (playbook_loop ?later m (r + 1) False)) =
         (if r + 1 > 0 then [Sleep 30] else []) @ alternate n Run_playbook (Sleep 30)"
      "\<forall>i. Suc i < n \<longrightarrow> ?later i \<noteq> 0"
      "snd (playbook_loop ?later m (r + 1) False) \<longleftrightarrow> ?later (n - 1) = 0"
      "\<not> snd (playbook_loop ?later m (r + 1) False) \<longrightarrow> n = nat (m + 1 - (r + 1))"
      by blast
    have runs: "runs_of (fst (playbook_loop engine m r False)) =
         (if r > 0 then [Sleep 30] else []) @ alternate (Suc n) Run_playbook (Sleep 30)"
      unfolding playbook_loop_failure [where engine = engine and m = m and r = r, OF Suc(4) False] fst_conv
      using Suc(3) lt n(1,3)
      by (simp add: runs_of_append runs_of_retrying runs_of_Cons
          runs_of_Nil playbook_will_retry_def alternate_step)
    have res: "snd (playbook_loop engine m r False) = snd (playbook_loop ?later m (r + 1) False)"
      unfolding playbook_loop_failure [where engine = engine and m = m and r = r, OF Suc(4) False] snd_conv ..
    have fails: "\<forall>i. Suc i < Suc n \<longrightarrow> engine i \<noteq> 0"
    proof (intro allI impI)
      fix i assume "Suc i < Suc n"
      then show "engine i \<noteq> 0" using False n(4) by (cases i) auto
    qed
    have last: "?later (n - 1) = engine (Suc n - 1)" using n(1) by simp
    have bound: "Suc n \<le> nat (m + 1 - r)" using n(2) lt by linarith
    have exh: "n = nat (m + 1 - (r + 1)) \<Longrightarrow> Suc n = nat (m + 1 - r)" using lt by linarith
    have a: "snd (playbook_loop engine m r False) \<longleftrightarrow> engine (Suc n - 1) = 0"
      using res last n(5) by simp
    have b: "\<not> snd (playbook_loop engine m r False) \<longrightarrow> Suc n = nat (m + 1 - r)"
      using res exh n(6) by simp
    show ?thesis
    proof (intro exI [where x = "Suc n"] conjI)
      show "0 < Suc n" by simp
      show "Suc n \<le> nat (m + 1 - r)" by (rule bound)
      show "runs_of (fst (playbook_loop engine m r False)) =
         (if r > 0 then [Sleep 30] else []) @ alternate (Suc n) Run_playbook (Sleep 30)"
        by (rule runs)
      show "\<forall>i. Suc i < Suc n \<longrightarrow> engine i \<noteq> 0" by (rule fails)
      show "snd (playbook_loop engine m r False) \<longleftrightarrow> engine (Suc n - 1) = 0" by (rule a)
      show "\<not> snd (playbook_loop engine m r False) \<longrightarrow> Suc n = nat (m + 1 - r)" by (rule b)
    qed

  qed
qed


lemma invocations_alternate:
  "filter is_run (alternate n Run_playbook (Sleep d)) = replicate n Run_playbook"
  by (induction n Run_playbook "Sleep d" rule: alternate.induct) auto

lemma invocations_runs_of:
  "filter is_run (runs_of tr) = filter is_run tr"
proof -
  have "\<And>e. is_run e \<Longrightarrow> is_run_or_sleep e" by (case_tac e) auto
  then show ?thesis unfolding runs_of_def by (induction tr) auto
qed


lemma playbook_loop_from_start:
  assumes "0 \<le> max_retries"
  shows "\<exists>n. 0 < n \<and> n \<le> nat (max_retries + 1) \<and>
     runs_of (fst (playbook_loop engine max_retries 0 False)) = alternate n Run_playbook (Sleep 30) \<and>
     (\<forall>i. Suc i < n \<longrightarrow> engine i \<noteq> 0) \<and>
     (snd (playbook_loop engine max_retries 0 False) \<longleftrightarrow> engine (n - 1) = 0) \<and>
     (\<not> snd (playbook_loop engine max_retries 0 False) \<longrightarrow> n = nat (max_retries + 1))"
proof -
  have z: "(0::int) \<le> 0" by simp
  from playbook_loop_shape [where r = 0 and m = max_retries and engine = engine, OF z assms]
  show ?thesis by (simp only: less_irrefl if_False append_Nil diff_0_right)
qed
text \<open>
  Claim C1. A run of the retry loop, entered as the script enters it (counter 0, no
  success yet) with \<open>max_retries\<close> retries allowed, invokes the configuration engine
  \<open>n\<close> times with \<open>1 \<le> n \<le> max_retries + 1\<close>. The invocations and the
  sleeps of the trace alternate, starting and ending with an invocation, and every sleep
  is of 30 seconds: a sleep stands exactly between two consecutive invocations, and
  every invocation but the last has failed. The loop reports success exactly when the
  last invocation returned 0, and a run without success has used all
  \<open>max_retries + 1\<close> invocations.
\<close>

theorem retry_controller_bounded:
  assumes "0 \<le> max_retries"
  shows "\<exists>n. 0 < n \<and> n \<le> nat (max_retries + 1) \<and>
           runs_of (fst (playbook_loop engine max_retries 0 False)) =
             alternate n Run_playbook (Sleep 30) \<and>
           length (filter is_run (fst (playbook_loop engine max_retries 0 False))) = n \<and>
           (\<forall>i. Suc i < n \<longrightarrow> engine i \<noteq> 0) \<and>
           (snd (playbook_loop engine max_retries 0 False) \<longleftrightarrow> engine (n - 1) = 0) \<and>
           (\<not> snd (playbook_loop engine max_retries 0 False) \<longrightarrow> n = nat (max_retries + 1))"
proof -
  from playbook_loop_from_start [where engine = engine, OF assms]
  obtain n where n: "0 < n" "n \<le> nat (max_retries + 1)"
     "runs_of (fst (playbook_loop engine max_retries 0 False)) = alternate n Run_playbook (Sleep 30)"
     "\<forall>i. Suc i < n \<longrightarrow> engine i \<noteq> 0"
     "snd (playbook_loop engine max_retries 0 False) \<longleftrightarrow> engine (n - 1) = 0"
     "\<not> snd (playbook_loop engine max_retries 0 False) \<longrightarrow> n = nat (max_retries + 1)"
    by blast
  have "filter is_run (fst (playbook_loop engine max_retries 0 False)) =
        filter is_run (runs_of (fst (playbook_loop engine max_retries 0 False)))"
    by (simp only: invocations_runs_of)
  also have "\<dots> = replicate n Run_playbook"
    by (simp only: n(3) invocations_alternate)
  finally have cnt:
    "length (filter is_run (fst (playbook_loop engine max_retries 0 False))) = n"
    by simp
  show ?thesis
  proof (intro exI [where x = n] conjI)
    show "0 < n" by (rule n(1))
    show "n \<le> nat (max_retries + 1)" by (rule n(2))
    show "runs_of (fst (playbook_loop engine max_retries 0 False)) =
            alternate n Run_playbook (Sleep 30)" by (rule n(3))
    show "length (filter is_run
            (fst (playbook_loop engine max_retries 0 False))) = n" by (rule cnt)
    show "\<forall>i. Suc i < n \<longrightarrow> engine i \<noteq> 0" by (rule n(4))
    show "snd (playbook_loop engine max_retries 0 False) \<longleftrightarrow> engine (n - 1) = 0" by (rule n(5))
    show "\<not> snd (playbook_loop engine max_retries 0 False) \<longrightarrow> n = nat (max_retries + 1)"
      by (rule n(6))
  qed
qed

text \<open>
  Witness for C1: the script's own bound of 2 retries, with an engine that fails at
  every invocation.
\<close>

theorem retry_controller_bounded_witness:
  "(0::int) \<le> 2 \<and>
   \<not> snd (playbook_loop (\<lambda>i. 4) 2 0 False) \<and>
   runs_of (fst (playbook_loop (\<lambda>i. 4) 2 0 False)) =
     [Run_playbook, Sleep 30, Run_playbook, Sleep 30, Run_playbook] \<and>
   length (filter is_run (fst (playbook_loop (\<lambda>i. 4) 2 0 False))) = 3"
proof -
  have h: "(0::int) \<le> 2" by simp
  from retry_controller_bounded [OF h, where engine = "\<lambda>i. 4"]
  obtain n where n:
    "runs_of (fst (playbook_loop (\<lambda>i. 4) 2 0 False)) = alternate n Run_playbook (Sleep 30)"
    "length (filter is_run (fst (playbook_loop (\<lambda>i. 4) 2 0 False))) = n"
    "snd (playbook_loop (\<lambda>i. 4) 2 0 False) \<longleftrightarrow> (4::int) = 0"
    "\<not> snd (playbook_loop (\<lambda>i. 4) 2 0 False) \<longrightarrow> n = nat (2 + 1)"
    by blast
  from n(3) have failed: "\<not> snd (playbook_loop (\<lambda>i. 4) 2 0 False)" by simp
  with n(4) have "n = Suc (Suc (Suc 0))" by simp
  with n(1,2) failed h show ?thesis by simp
qed

section \<open>Properties of the run\<close>

text \<open>An event that neither mentions the secret nor touches the credentials.\<close>

lemma winrm_loop_quiet:
  "e \<in> set (fst (winrm_loop net ip port m a)) \<Longrightarrow> \<not> mentions_secret e \<and> \<not> touches_credentials e"
proof (induction net ip port m a rule: winrm_loop.induct)
  case (1 net ip port m a)
  show ?case
  proof (cases "a < m + 1")
    case False
    with 1(3) show ?thesis by (auto simp: winrm_loop_done winrm_gave_up_def)
  next
    case True
    show ?thesis
    proof (cases "net a = Connect_ex 0")
      case ok: True
      with True 1(3) show ?thesis
        by (auto simp: winrm_loop_ok winrm_attempt_def winrm_ready_def rule60_def)
    next
      case False
      have ih: "e \<in> set (fst (winrm_loop net ip port m (a + 1))) \<Longrightarrow>
                \<not> mentions_secret e \<and> \<not> touches_credentials e"
      proof (cases "net a")
        case (Connect_ex r)
        with False have "r \<noteq> 0" by simp
        from 1(1) [OF True Connect_ex this] show "e \<in> set (fst (winrm_loop net ip port m (a + 1))) \<Longrightarrow> ?thesis" .
      next
        case (Raised x)
        from 1(2) [OF True Raised] show "e \<in> set (fst (winrm_loop net ip port m (a + 1))) \<Longrightarrow> ?thesis" .
      qed
      from 1(3) have mem: "e \<in> set (fst (winrm_loop net ip port m a))" .
      have unf: "fst (winrm_loop net ip port m a) =
          winrm_attempt m a # Connect ip port 5
          # (case net a of Connect_ex r \<Rightarrow> winrm_not_open port | Raised x \<Rightarrow> winrm_test_failed x)
          # (if a < m then [Sleep 30] else []) @ fst (winrm_loop net ip port m (a + 1))"
        using True False
        by (simp only: winrm_loop.simps [of net ip port m a])
           (auto simp: Let_def split: conn.splits prod.splits)
      from mem ih show ?thesis unfolding unf
        by (auto simp: winrm_attempt_def winrm_not_open_def winrm_test_failed_def split: conn.splits if_splits)
    qed
  qed
qed

lemma test_winrm_quiet:
  "e \<in> set (fst (test_winrm_connectivity net ip port m)) \<Longrightarrow>
   \<not> mentions_secret e \<and> \<not> touches_credentials e"
  unfolding test_winrm_unfold
  using winrm_loop_quiet [of e net ip port m 1]
  by (auto simp: winrm_header_def rule60_def)



lemma configure_not_ready:
  assumes "snd (test_winrm_connectivity (network w) instance_ip 5985 20) = Inr False"
  shows "configure_with_ansible w file instance_ip instance_id a =
    (Banner ''PHASE 2: WAITING FOR INSTANCE TO BE READY''
       # fst (test_winrm_connectivity (network w) instance_ip 5985 20) @ not_ready_hint,
     file, Returns ())"
  using assms by (simp add: configure_with_ansible_def split_def Let_def)

lemma configure_raised:
  assumes "snd (test_winrm_connectivity (network w) instance_ip 5985 20) = Inl x"
  shows "configure_with_ansible w file instance_ip instance_id a =
    (Banner ''PHASE 2: WAITING FOR INSTANCE TO BE READY''
       # fst (test_winrm_connectivity (network w) instance_ip 5985 20),
     file, Raises x)"
  using assms by (simp add: configure_with_ansible_def split_def Let_def)

lemma configure_cmd_failed:
  assumes "snd (test_winrm_connectivity (network w) instance_ip 5985 20) = Inr True"
    and "password_cmd w = Cmd_failed x"
  shows "configure_with_ansible w file instance_ip instance_id a =
    (phase3_of w instance_ip instance_id a @ [Log ERROR [Txt ''Command failed: '', Exn x]],
     file, Exits 1)"
  using assms by (simp add: configure_with_ansible_def split_def Let_def phase3_of_def)

lemma configure_empty_password:
  assumes "snd (test_winrm_connectivity (network w) instance_ip 5985 20) = Inr True"
    and "password_cmd w = Cmd_output out" and "strip out = []"
  shows "configure_with_ansible w file instance_ip instance_id a =
    (phase3_of w instance_ip instance_id a @ password_missing instance_id (region a),
     file, Returns ())"
  using assms by (simp add: configure_with_ansible_def split_def Let_def phase3_of_def)


lemma write_touches: "is_write e \<Longrightarrow> touches_credentials e"
  by (cases e) auto

lemma phase3_quiet:
  "e \<in> set (phase3_of w instance_ip instance_id a) \<Longrightarrow>
   \<not> mentions_secret e \<and> \<not> is_write e \<and> e \<noteq> Run_playbook"
  using test_winrm_quiet [of e "network w" instance_ip 5985 20]
  by (auto simp: phase3_of_def dest: write_touches)




lemma test_winrm_no_effects:
  assumes "e \<in> set (fst (test_winrm_connectivity net ip port m))"
  shows "\<not> is_write e \<and> e \<noteq> Run_playbook"
proof -
  from test_winrm_quiet [OF assms] have "\<not> touches_credentials e" by simp
  then show ?thesis by (cases e) auto
qed

lemma ready_cases:
  obtains (raised) x where "snd (test_winrm_connectivity net ip port m) = Inl x"
  | (not_ready) "snd (test_winrm_connectivity net ip port m) = Inr False"
  | (ready) "snd (test_winrm_connectivity net ip port m) = Inr True"
  by (cases "snd (test_winrm_connectivity net ip port m)") auto


text \<open>
  Claim C10. When the password command yields an empty value (empty after
  \<open>strip\<close>), \<open>configure_with_ansible\<close> leaves the inventory file as it was and
  its trace holds neither a write of the inventory nor an invocation of the playbook.
  Conversely, a write of the inventory, an invocation of the playbook or a changed
  inventory file occur only in runs whose password is not empty.
\<close>

theorem empty_secret_leaves_inventory_and_engine:
  "(\<forall>out. password_cmd w = Cmd_output out \<and> strip out = [] \<longrightarrow>
      fst (snd (configure_with_ansible w file instance_ip instance_id a)) = file \<and>
      (\<forall>e \<in> set (fst (configure_with_ansible w file instance_ip instance_id a)).
          \<not> is_write e \<and> e \<noteq> Run_playbook)) \<and>
   ((\<exists>e \<in> set (fst (configure_with_ansible w file instance_ip instance_id a)).
        is_write e \<or> e = Run_playbook)
    \<or> fst (snd (configure_with_ansible w file instance_ip instance_id a)) \<noteq> file \<longrightarrow>
      (\<exists>out. password_cmd w = Cmd_output out \<and> strip out \<noteq> []))"
proof -
  let ?run = "configure_with_ansible w file instance_ip instance_id a"
  have quiet: "fst (snd ?run) = file \<and> (\<forall>e \<in> set (fst ?run). \<not> is_write e \<and> e \<noteq> Run_playbook)"
    if "\<not> (\<exists>out. password_cmd w = Cmd_output out \<and> strip out \<noteq> [])"
  proof (cases rule: ready_cases [of "network w" instance_ip 5985 20])
    case (raised x)
    with test_winrm_no_effects [of _ "network w" instance_ip 5985 20]
    show ?thesis by (auto simp: configure_raised)
  next
    case not_ready
    with test_winrm_no_effects [of _ "network w" instance_ip 5985 20]
    show ?thesis by (auto simp: configure_not_ready not_ready_hint_def)
  next
    case ready
    show ?thesis
    proof (cases "password_cmd w")
      case (Cmd_failed x)
      with ready phase3_quiet [of _ w instance_ip instance_id a]
      show ?thesis by (auto simp: configure_cmd_failed)
    next
      case (Cmd_output out)
      with that have "strip out = []" by simp
      with ready Cmd_output phase3_quiet [of _ w instance_ip instance_id a]
      show ?thesis by (auto simp: configure_empty_password password_missing_def)
    qed
  qed
  have part1: "\<forall>out. password_cmd w = Cmd_output out \<and> strip out = [] \<longrightarrow>
      fst (snd ?run) = file \<and> (\<forall>e \<in> set (fst ?run). \<not> is_write e \<and> e \<noteq> Run_playbook)"
  proof (intro allI impI)
    fix out assume "password_cmd w = Cmd_output out \<and> strip out = []"
    then have "\<not> (\<exists>out. password_cmd w = Cmd_output out \<and> strip out \<noteq> [])" by auto
    then show "fst (snd ?run) = file \<and> (\<forall>e \<in> set (fst ?run). \<not> is_write e \<and> e \<noteq> Run_playbook)"
      by (rule quiet)
  qed
  have part2: "(\<exists>e \<in> set (fst ?run). is_write e \<or> e = Run_playbook) \<or> fst (snd ?run) \<noteq> file \<longrightarrow>
      (\<exists>out. password_cmd w = Cmd_output out \<and> strip out \<noteq> [])"
    using quiet by blast
  from part1 part2 show ?thesis by (rule conjI)
qed



text \<open>
  Witness for C10: the password command prints an empty line; the inventory file is
  what it was.
\<close>

theorem empty_secret_leaves_inventory_and_engine_witness:
  "password_cmd no_secret_world = Cmd_output [newline] \<and> strip [newline] = [] \<and>
   fst (snd (configure_with_ansible no_secret_world (Some sample_inventory) ''203.0.113.5''
               ''i-0abc'' (sample_args Deploy))) = Some sample_inventory"
proof -
  have a: "password_cmd no_secret_world = Cmd_output [newline]"
    by (simp add: no_secret_world_def sample_world_def)
  have b: "strip [newline] = []" by code_simp
  from empty_secret_leaves_inventory_and_engine [of no_secret_world "Some sample_inventory"
      "''203.0.113.5''" "''i-0abc''" "sample_args Deploy"] a b
  have "fst (snd (configure_with_ansible no_secret_world (Some sample_inventory) ''203.0.113.5''
               ''i-0abc'' (sample_args Deploy))) = Some sample_inventory"
    by blast
  with a b show ?thesis by blast
qed

lemma configure_after_exhausted_probe:
  assumes "never_accepts (network w) 1 20"
  shows "configure_with_ansible w file instance_ip instance_id a =
    (Banner ''PHASE 2: WAITING FOR INSTANCE TO BE READY''
       # fst (test_winrm_connectivity (network w) instance_ip 5985 20) @ not_ready_hint,
     file, Returns ())"
proof -
  from winrm_loop_never [OF assms, of instance_ip 5985]
  have "snd (test_winrm_connectivity (network w) instance_ip 5985 20) = Inr False"
    by (simp add: test_winrm_unfold)
  then show ?thesis by (rule configure_not_ready)
qed

text \<open>
  Claim C6. In a deployment whose prerequisite check and Terraform phase succeeded and
  whose configuration is not skipped, if the instance accepts none of the 20 connection
  attempts, then no event of the run retrieves the password, reads or writes the
  inventory or invokes the playbook, the inventory file is what it was, the manual
  command is logged, \<open>main\<close> runs to its end and the process ends with exit code 0.
\<close>

theorem readiness_exhausted_skips_configuration:
  assumes "prerequisites w = Returns ()"
    and "provisioning w = Returns (instance_ip, instance_id)"
    and "action a = Deploy" and "\<not> skip_ansible a"
    and "never_accepts (network w) 1 20"
  shows "(\<forall>e \<in> set (fst (main w file a)). \<not> touches_credentials e) \<and>
         fst (snd (main w file a)) = file \<and>
         Log INFO [Txt ''Manual command: ansible-playbook -i ansible/inventory/hosts.yml ansible/playbooks/site.yml'']
           \<in> set (fst (main w file a)) \<and>
         last (fst (main w file a)) = script_completed \<and>
         snd (snd (main w file a)) = Returns () \<and>
         exit_code (snd (snd (main w file a))) = 0"
proof -
  let ?probe = "fst (test_winrm_connectivity (network w) instance_ip 5985 20)"
  have eq: "main w file a =
     ([Banner ''DC AUTOMATION - TERRAFORM + ANSIBLE DEPLOYMENT'', Check_prerequisites]
        @ Deploy_infrastructure
        # (Banner ''PHASE 2: WAITING FOR INSTANCE TO BE READY'' # ?probe @ not_ready_hint)
        @ [script_completed], file, Returns ())"
    using assms(1-4)
    by (simp add: main_def configure_after_exhausted_probe [OF assms(5)])
  have "\<forall>e \<in> set ?probe. \<not> touches_credentials e"
    using test_winrm_quiet [of _ "network w" instance_ip 5985 20] by blast
  then have quiet: "\<forall>e \<in> set (fst (main w file a)). \<not> touches_credentials e"
    unfolding eq by (auto simp: not_ready_hint_def script_completed_def)
  show ?thesis
    using quiet unfolding eq by (simp add: not_ready_hint_def)
qed

text \<open>Witness for C6: the sample deployment against an instance that refuses every attempt.\<close>

theorem readiness_exhausted_skips_configuration_witness:
  "prerequisites unreachable_world = Returns () \<and>
   provisioning unreachable_world = Returns (''203.0.113.5'', ''i-0abc'') \<and>
   action (sample_args Deploy) = Deploy \<and> \<not> skip_ansible (sample_args Deploy) \<and>
   never_accepts (network unreachable_world) 1 20 \<and>
   fst (snd (main unreachable_world (Some sample_inventory) (sample_args Deploy)))
     = Some sample_inventory \<and>
   exit_code (snd (snd (main unreachable_world (Some sample_inventory) (sample_args Deploy)))) = 0"
proof -
  have h: "prerequisites unreachable_world = Returns ()"
      "provisioning unreachable_world = Returns (''203.0.113.5'', ''i-0abc'')"
      "action (sample_args Deploy) = Deploy" "\<not> skip_ansible (sample_args Deploy)"
      "never_accepts (network unreachable_world) 1 20"
    by (simp_all add: unreachable_world_def sample_world_def sample_args_def never_accepts_def)
  from readiness_exhausted_skips_configuration [OF h, of "Some sample_inventory"] h
  show ?thesis by simp
qed

text \<open>
  Claim C8, as the code has it. In configuration-only mode, when the inventory text
  does not hold \<open>ansible_password:\<close>, the run logs the error, does not invoke the
  playbook, does not reach the end of \<open>main\<close> and ends the process with exit code 1.
\<close>

theorem configuration_only_without_secret_exits:
  assumes "prerequisites w = Returns ()" and "action a = Ansible_only"
    and "\<not> contains ''ansible_password:'' inventory"
  shows "snd (snd (main w (Some inventory) a)) = Exits 1 \<and>
         exit_code (snd (snd (main w (Some inventory) a))) = 1 \<and>
         Run_playbook \<notin> set (fst (main w (Some inventory) a)) \<and>
         script_completed \<notin> set (fst (main w (Some inventory) a)) \<and>
         Log ERROR [Txt ''Password not found in inventory. Please run full deployment first.'']
           \<in> set (fst (main w (Some inventory) a)) \<and>
         fst (snd (main w (Some inventory) a)) = Some inventory"
  using assms by (simp add: main_def ansible_only_def script_completed_def)

theorem configuration_only_without_secret_exits_witness:
  "prerequisites sample_world = Returns () \<and> action (sample_args Ansible_only) = Ansible_only \<and>
   \<not> contains ''ansible_password:'' ''all:'' \<and>
   snd (snd (main sample_world (Some ''all:'') (sample_args Ansible_only))) = Exits 1"
proof -
  have h: "prerequisites sample_world = Returns ()"
      "action (sample_args Ansible_only) = Ansible_only"
      "\<not> contains ''ansible_password:'' ''all:''"
    by (simp_all add: sample_world_def sample_args_def)
  from configuration_only_without_secret_exits [OF h] h show ?thesis by simp
qed

text \<open>
  Claim C8 as stated fails: on an inventory without the secret field the
  configuration-only run is a hard failure of the process, exit code 1.
\<close>

theorem configuration_only_without_secret_counterexample:
  "\<not> contains ''ansible_password:'' ''all:'' \<and>
   snd (snd (main sample_world (Some ''all:'') (sample_args Ansible_only))) \<noteq> Returns () \<and>
   exit_code (snd (snd (main sample_world (Some ''all:'') (sample_args Ansible_only)))) \<noteq> 0"
  by (simp add: main_def ansible_only_def sample_world_def sample_args_def)

section \<open>The matcher on the two patterns\<close>



lemma shift_simps [simp]:
  "shift k None = None" "shift k (Some (g, n)) = Some (k + g, k + n)"
  by (simp_all add: shift_def)



lemma bol_after_Nil [simp]: "bol_after b [] = b"
  by (simp add: bol_after_def)

lemma bol_after_append: "bol_after (bol_after b u) v = bol_after b (u @ v)"
  by (simp add: bol_after_def)






declare rmatch.simps(2) [simp del]










section \<open>The scan of re.sub\<close>




declare sub_scan.simps [simp del]







section \<open>The two substitutions, step by step\<close>


















section \<open>Each substitution is idempotent\<close>
















section \<open>How the two substitutions pass over each other's text\<close>

lemma stem_unsplit:
  "takeWhile P s = u \<Longrightarrow> s = u @ dropWhile P s"
  by (metis takeWhile_dropWhile_id)














section \<open>The edit of the credential bridge is idempotent\<close>









section \<open>The edit changes field values only\<close>

lemma matched_values_Nil: "rmatch pat b [] = None \<Longrightarrow> matched_values pat b [] = []"
  by (subst matched_values.simps) simp



declare matched_values.simps [simp del]





lemma values_replaced_weaken:
  assumes "values_replaced key ok new b s s'" and "\<And>v. ok v \<Longrightarrow> ok' v"
  shows "values_replaced key ok' new b s s'"
  using assms(1)
proof (induction rule: values_replaced.induct)
  case (vr_end bol)
  show ?case by (rule values_replaced.vr_end)
next
  case (vr_keep x s s' bol)
  then show ?case by (simp add: values_replaced.vr_keep)
next
  case (vr_value ws ws2 v r r')
  from values_replaced.vr_value [OF vr_value(1,2) assms(2) [OF vr_value(3)] vr_value(5)]
  show ?case .
qed





end
